theory Spec2Isabelle
  imports Main
begin

section \<open>Outcomes shared by both programs\<close>

text \<open>
  Messages the programs (and the C library on their behalf) print. A call of \<open>exit\<close>
  ends the run with a status and what was printed so far; behaviour the C language leaves
  undefined (an access outside an array, an integer outside the range of \<open>int\<close>) is its
  own outcome, so that no theorem speaks about a run the language does not define.
\<close>

datatype message =
    Usage
  | Version_Line
  | No_IP_Address
  | Unknown_Arguments "string list"
  | Invalid_Option char
  | Requires_Argument char
  | Unrecognized_Option string
  | Ambiguous_Option string
  | Allows_No_Argument string
  | Long_Requires_Argument string
  | Screenshot_Usage
  | Saved_Screenshot string

datatype stop = Exit int "message list" | Undefined

definition EXIT_SUCCESS :: int where "EXIT_SUCCESS = 0"
definition EXIT_FAILURE :: int where "EXIT_FAILURE = 1"

section \<open>C library: characters, strings, atoi\<close>

definition NUL :: char where "NUL = CHR 0x00"

definition isspace :: "char \<Rightarrow> bool" where
  "isspace c = (c \<in> set [CHR '' '', CHR 0x09, CHR 0x0A, CHR 0x0B, CHR 0x0C, CHR 0x0D])"

definition isdigit :: "char \<Rightarrow> bool" where
  "isdigit c = (48 \<le> (of_char c :: nat) \<and> (of_char c :: nat) \<le> 57)"

definition digit_value :: "char \<Rightarrow> int" where
  "digit_value c = int (of_char c) - 48"

definition int_range :: "int \<Rightarrow> bool" where
  "int_range v = (- 2147483648 \<le> v \<and> v \<le> 2147483647)"

text \<open>The string a \<open>char *\<close> denotes: the bytes from the pointer up to the first NUL.\<close>

definition cstring :: "string \<Rightarrow> string" where
  "cstring bytes = takeWhile (\<lambda>b. b \<noteq> NUL) bytes"

fun atoi_digits :: "int \<Rightarrow> string \<Rightarrow> int" where
  "atoi_digits acc [] = acc"
| "atoi_digits acc (c # cs) =
     (if isdigit c then atoi_digits (10 * acc + digit_value c) cs else acc)"

text \<open>
  \<open>atoi\<close>: leading white space, an optional sign, then the longest run of decimal digits;
  0 when there is none. A value that \<open>int\<close> cannot hold is undefined in C.
\<close>

definition atoi :: "string \<Rightarrow> stop + int" where
  "atoi s =
     (let v = (case dropWhile isspace s of
                 [] \<Rightarrow> 0
               | c # cs \<Rightarrow>
                   if c = CHR ''-'' then - atoi_digits 0 cs
                   else if c = CHR ''+'' then atoi_digits 0 cs
                   else atoi_digits 0 (c # cs))
      in if int_range v then Inr v else Inl Undefined)"

section \<open>rigol\_1000z\_screenshot.c\<close>

text \<open>
  What the C text leaves to the machine: the size of the response array (the constant
  \<open>LXI_MESSAGE_LENGTH_MAX\<close> of the lxi library's header), the value the uninitialised local
  \<open>length\<close> holds when \<open>lxi_receive\<close> does not store one, and the bytes that follow the local
  \<open>c\<close> in memory, which \<open>atoi(&c)\<close> reads when \<open>c\<close> itself does not end the number.
\<close>

record machine =
  LXI_MESSAGE_LENGTH_MAX :: nat
  length_indeterminate :: int
  after_c :: string

text \<open>
  The transport collaborator (the lxi library), by what it answers: the three return
  values, and the bytes \<open>lxi_receive\<close> stored in the response array together with their
  count in \<open>length\<close> (\<open>None\<close>: it stored nothing and left \<open>length\<close> as it was).
\<close>

record transport =
  connect_result :: int
  send_result :: int
  receive_result :: int
  received :: "string option"

text \<open>
  Lines 62 to 71: strip the TMC block header and the termination character. The array
  \<open>response\<close> and \<open>length\<close> come in; the array as written, the offset of \<open>response_p\<close>
  in it and the new \<open>length\<close> come out.
\<close>

definition strip_tmc :: "string \<Rightarrow> string \<Rightarrow> int \<Rightarrow> stop + (string \<times> int \<times> int)" where
  "strip_tmc after response len =
     (if length response < 2 then Inl Undefined
      else
        let c = response ! 1 in
        case atoi (cstring (c # after)) of
          Inl e \<Rightarrow> Inl e
        | Inr n \<Rightarrow>
            if int_range (n + 2) \<and> int_range (len - (n + 2)) then
              let response_p = n + 2;
                  len = len - (n + 2)
              in
                if response_p < 0 \<or> int (length response) < response_p then Inl Undefined
                else if len < 0 \<or> int (length response) \<le> len then Inl Undefined
                else Inr (response[nat len := NUL], response_p, len - 1)
            else Inl Undefined)"

text \<open>
  \<open>file_dump(response_p, length, filename)\<close>: \<open>fwrite\<close> takes \<open>length\<close> bytes from
  \<open>response_p\<close> on; they are the content of the file, which is taken to open. A negative
  \<open>length\<close> becomes a huge \<open>size_t\<close>, and the read leaves the array.
\<close>

definition file_dump :: "string \<Rightarrow> int \<Rightarrow> int \<Rightarrow> stop + string" where
  "file_dump response response_p len =
     (if len < 0 \<or> response_p < 0 \<or> int (length response) < response_p + len then Inl Undefined
      else Inr (take (nat len) (drop (nat response_p) response)))"

text \<open>The decode step as a whole: the payload bytes handed to the file, and their length.\<close>

definition decode :: "string \<Rightarrow> string \<Rightarrow> int \<Rightarrow> stop + (string \<times> int)" where
  "decode after response len =
     (case strip_tmc after response len of
        Inl e \<Rightarrow> Inl e
      | Inr (response', response_p, len') \<Rightarrow>
          (case file_dump response' response_p len' of
             Inl e \<Rightarrow> Inl e
           | Inr bytes \<Rightarrow> Inr (bytes, len')))"

text \<open>
  The response array after \<open>lxi_receive\<close>: declared with the initialiser \<open>""\<close>, so all
  NUL, then overwritten from index 0 by what was received.
\<close>

definition response_array :: "nat \<Rightarrow> string option \<Rightarrow> stop + string" where
  "response_array size_max rx =
     (case rx of
        None \<Rightarrow> Inr (replicate size_max NUL)
      | Some bytes \<Rightarrow>
          if size_max < length bytes then Inl Undefined
          else Inr (bytes @ replicate (size_max - length bytes) NUL))"

record screenshot_run =
  status :: int
  file_name :: string
  file_bytes :: string
  printed :: "message list"

text \<open>
  \<open>capture_screenshot\<close>: the three results of the transport are not looked at; \<open>length\<close>
  is whatever \<open>lxi_receive\<close> stored, or its indeterminate initial value.
\<close>

definition capture_screenshot ::
    "machine \<Rightarrow> transport \<Rightarrow> string \<Rightarrow> string \<Rightarrow> int \<Rightarrow> stop + screenshot_run" where
  "capture_screenshot m tr ip filename timeout =
     (case response_array (LXI_MESSAGE_LENGTH_MAX m) (received tr) of
        Inl e \<Rightarrow> Inl e
      | Inr response \<Rightarrow>
          let len = (case received tr of
                       None \<Rightarrow> length_indeterminate m
                     | Some bytes \<Rightarrow> int (length bytes))
          in
            (case decode (after_c m) response len of
               Inl e \<Rightarrow> Inl e
             | Inr (bytes, len') \<Rightarrow>
                 Inr \<lparr>status = 0, file_name = filename, file_bytes = bytes,
                      printed = [Saved_Screenshot filename]\<rparr>))"

text \<open>\<open>main\<close> of the screenshot program: the exit status is what \<open>capture_screenshot\<close> returns.\<close>

definition screenshot_main :: "machine \<Rightarrow> transport \<Rightarrow> string list \<Rightarrow> stop + screenshot_run" where
  "screenshot_main m tr argv =
     (if length argv \<noteq> 3 then Inl (Exit EXIT_FAILURE [Screenshot_Usage])
      else capture_screenshot m tr (argv ! 1) (argv ! 2) 5)"

section \<open>C library: getopt\_long\<close>

text \<open>
  \<open>getopt_long\<close> of the GNU C library, which \<open>parse_options\<close> calls. The library's state
  (\<open>optind\<close>, \<open>optarg\<close>, the position inside a cluster of short options, the bounds of
  the non-options skipped so far) is a record passed in and out, and \<open>argv\<close> is part of it
  because the library permutes it. Every entry of the tables in options.c has a null
  \<open>flag\<close>, so a long option returns its \<open>val\<close>; \<open>opterr\<close> keeps its initial value 1;
  no option string of options.c holds \<open>W;\<close>. What the library prints goes to \<open>errs\<close>.
\<close>

datatype ordering = REQUIRE_ORDER | PERMUTE | RETURN_IN_ORDER

datatype has_arg = no_argument | required_argument | optional_argument

record long_option =
  name :: string
  has_arg :: has_arg
  val :: char

record getopt_data =
  argv :: "string list"
  optind :: nat
  optarg :: "string option"
  nextchar :: string
  first_nonopt :: nat
  last_nonopt :: nat
  ordering :: ordering
  initialized :: bool
  errs :: "message list"

text \<open>The library's state when the process starts, for a given argument vector.\<close>

definition getopt_start :: "string list \<Rightarrow> getopt_data" where
  "getopt_start args =
     \<lparr>argv = args, optind = 1, optarg = None, nextchar = [], first_nonopt = 0,
      last_nonopt = 0, ordering = PERMUTE, initialized = False, errs = []\<rparr>"

text \<open>\<open>NONOPTION_P\<close>: the element does not start with \<open>-\<close>, or is \<open>-\<close> alone.\<close>

definition nonoption :: "string \<Rightarrow> bool" where
  "nonoption a = (case a of [] \<Rightarrow> True | c # cs \<Rightarrow> c \<noteq> CHR ''-'' \<or> cs = [])"

text \<open>
  \<open>exchange\<close>: the non-options in \<open>[first_nonopt, last_nonopt)\<close> and the options in
  \<open>[last_nonopt, optind)\<close> swap places, each block keeping its order (the library's loop
  of segment swaps runs only while both blocks are non-empty).
\<close>

definition exchange :: "getopt_data \<Rightarrow> getopt_data" where
  "exchange d =
     (let bottom = first_nonopt d; middle = last_nonopt d; top = optind d;
          args = argv d;
          args' = (if bottom < middle \<and> middle < top then
                     take bottom args @ take (top - middle) (drop middle args) @
                     take (middle - bottom) (drop bottom args) @ drop top args
                   else args)
      in d\<lparr>argv := args', first_nonopt := first_nonopt d + (optind d - last_nonopt d),
            last_nonopt := optind d\<rparr>)"

definition getopt_initialize :: "bool \<Rightarrow> string \<Rightarrow> getopt_data \<Rightarrow> string \<times> getopt_data" where
  "getopt_initialize posixly_correct optstring d =
     (let d1 = (if optind d = 0 then d\<lparr>optind := 1\<rparr> else d);
          d2 = d1\<lparr>first_nonopt := optind d1, last_nonopt := optind d1, nextchar := [],
                  initialized := True\<rparr>
      in if take 1 optstring = ''-'' then (drop 1 optstring, d2\<lparr>ordering := RETURN_IN_ORDER\<rparr>)
         else if take 1 optstring = ''+'' then (drop 1 optstring, d2\<lparr>ordering := REQUIRE_ORDER\<rparr>)
         else if posixly_correct then (optstring, d2\<lparr>ordering := REQUIRE_ORDER\<rparr>)
         else (optstring, d2\<lparr>ordering := PERMUTE\<rparr>))"

text \<open>The value returned when an argument is missing: \<open>:\<close> if the option string asks for it.\<close>

definition missing_code :: "string \<Rightarrow> char" where
  "missing_code optstring = (if take 1 optstring = '':'' then CHR '':'' else CHR ''?'')"

definition print_error :: "string \<Rightarrow> message \<Rightarrow> getopt_data \<Rightarrow> getopt_data" where
  "print_error optstring msg d =
     (if take 1 optstring = '':'' then d else d\<lparr>errs := errs d @ [msg]\<rparr>)"

text \<open>
  \<open>process_long_option\<close>, entered with \<open>nextchar\<close> after the \<open>--\<close>: an exact match of
  the name first, else the abbreviations; two abbreviations that differ in \<open>has_arg\<close> or
  \<open>val\<close> are ambiguous.
\<close>

definition process_long_option ::
    "string \<Rightarrow> long_option list \<Rightarrow> getopt_data \<Rightarrow> char option \<times> getopt_data" where
  "process_long_option optstring longopts d =
     (let nm = takeWhile (\<lambda>c. c \<noteq> CHR ''='') (nextchar d);
          nameend = dropWhile (\<lambda>c. c \<noteq> CHR ''='') (nextchar d);
          exact = filter (\<lambda>p. name p = nm) longopts;
          abbrev = filter (\<lambda>p. take (length nm) (name p) = nm) longopts
      in
        if exact = [] \<and> abbrev \<noteq> [] \<and>
           list_ex (\<lambda>p. has_arg p \<noteq> has_arg (hd abbrev) \<or> val p \<noteq> val (hd abbrev)) (tl abbrev)
        then (Some CHR ''?'',
              (print_error optstring (Ambiguous_Option (''--'' @ nextchar d)) d)
                \<lparr>nextchar := [], optind := optind d + 1\<rparr>)
        else
          (case (if exact = [] then abbrev else exact) of
             [] \<Rightarrow>
               (Some CHR ''?'',
                (print_error optstring (Unrecognized_Option (''--'' @ nextchar d)) d)
                  \<lparr>nextchar := [], optind := optind d + 1\<rparr>)
           | pfound # _ \<Rightarrow>
               let d1 = d\<lparr>optind := optind d + 1, nextchar := []\<rparr> in
               if nameend \<noteq> [] then
                 (if has_arg pfound = no_argument then
                    (Some CHR ''?'',
                     print_error optstring (Allows_No_Argument (''--'' @ name pfound)) d1)
                  else (Some (val pfound), d1\<lparr>optarg := Some (tl nameend)\<rparr>))
               else if has_arg pfound = required_argument then
                 (if optind d1 < length (argv d1) then
                    (Some (val pfound),
                     d1\<lparr>optarg := Some (argv d1 ! optind d1), optind := optind d1 + 1\<rparr>)
                  else
                    (Some (missing_code optstring),
                     print_error optstring (Long_Requires_Argument (''--'' @ name pfound)) d1))
               else (Some (val pfound), d1)))"

text \<open>
  The next short option character: \<open>nextchar\<close> is not empty here. \<open>strchr\<close> finds the
  character in the option string; what follows it there tells whether it takes an argument.
\<close>

definition short_option :: "string \<Rightarrow> getopt_data \<Rightarrow> char option \<times> getopt_data" where
  "short_option optstring d =
     (let c = hd (nextchar d);
          d1 = d\<lparr>nextchar := tl (nextchar d)\<rparr>;
          temp = dropWhile (\<lambda>x. x \<noteq> c) optstring;
          d2 = (if nextchar d1 = [] then d1\<lparr>optind := optind d1 + 1\<rparr> else d1)
      in
        if temp = [] \<or> c = CHR '':'' \<or> c = CHR '';'' then
          (Some CHR ''?'', print_error optstring (Invalid_Option c) d2)
        else if take 1 (tl temp) = '':'' then
          (if take 1 (tl (tl temp)) = '':'' then
             (if nextchar d2 \<noteq> [] then
                (Some c, d2\<lparr>optarg := Some (nextchar d2), optind := optind d2 + 1, nextchar := []\<rparr>)
              else (Some c, d2\<lparr>optarg := None, nextchar := []\<rparr>))
           else
             (if nextchar d2 \<noteq> [] then
                (Some c, d2\<lparr>optarg := Some (nextchar d2), optind := optind d2 + 1, nextchar := []\<rparr>)
              else if optind d2 = length (argv d2) then
                (Some (missing_code optstring),
                 (print_error optstring (Requires_Argument c) d2)\<lparr>nextchar := []\<rparr>)
              else
                (Some c, d2\<lparr>optarg := Some (argv d2 ! optind d2), optind := optind d2 + 1,
                            nextchar := []\<rparr>)))
        else (Some c, d2))"

text \<open>
  Advancing to the next element of \<open>argv\<close>, when no cluster of short options is being
  read: permuting past non-options, the special element \<open>--\<close>, the end of the arguments.
\<close>

datatype advanced = Return "char option" getopt_data | Long_Option getopt_data | Short_Option getopt_data

text \<open>The bounds of the skipped non-options never lie beyond \<open>optind\<close>.\<close>

definition clamp_nonopts :: "getopt_data \<Rightarrow> getopt_data" where
  "clamp_nonopts d =
     (let d1 = (if optind d < last_nonopt d then d\<lparr>last_nonopt := optind d\<rparr> else d)
      in if optind d1 < first_nonopt d1 then d1\<lparr>first_nonopt := optind d1\<rparr> else d1)"

text \<open>
  Under \<open>PERMUTE\<close>: the options just processed move before the non-options skipped
  earlier, then the non-options that follow are skipped too.
\<close>

definition permute_skip :: "getopt_data \<Rightarrow> getopt_data" where
  "permute_skip d =
     (let e = (if first_nonopt d \<noteq> last_nonopt d \<and> last_nonopt d \<noteq> optind d then exchange d
               else if last_nonopt d \<noteq> optind d then d\<lparr>first_nonopt := optind d\<rparr>
               else d);
          skipped = length (takeWhile nonoption (drop (optind e) (argv e)))
      in e\<lparr>optind := optind e + skipped, last_nonopt := optind e + skipped\<rparr>)"

text \<open>The element \<open>--\<close> ends the options: everything after it is a non-option.\<close>

definition end_of_options :: "getopt_data \<Rightarrow> getopt_data" where
  "end_of_options d =
     (let argc = length (argv d) in
      if optind d \<noteq> argc \<and> argv d ! optind d = ''--'' then
        let e = d\<lparr>optind := optind d + 1\<rparr>;
            e' = (if first_nonopt e \<noteq> last_nonopt e \<and> last_nonopt e \<noteq> optind e then exchange e
                  else if first_nonopt e = last_nonopt e then e\<lparr>first_nonopt := optind e\<rparr>
                  else e)
        in e'\<lparr>last_nonopt := argc, optind := argc\<rparr>
      else d)"

definition advance :: "getopt_data \<Rightarrow> advanced" where
  "advance d =
     (let argc = length (argv d);
          d2 = clamp_nonopts d;
          d3 = (if ordering d2 = PERMUTE then permute_skip d2 else d2);
          d4 = end_of_options d3
      in
        if optind d4 = argc then
          Return None (if first_nonopt d4 \<noteq> last_nonopt d4
                       then d4\<lparr>optind := first_nonopt d4\<rparr> else d4)
        else if nonoption (argv d4 ! optind d4) then
          (if ordering d4 = REQUIRE_ORDER then Return None d4
           else Return (Some (CHR 0x01))
                  (d4\<lparr>optarg := Some (argv d4 ! optind d4), optind := optind d4 + 1\<rparr>))
        else if take 1 (drop 1 (argv d4 ! optind d4)) = ''-'' then
          Long_Option (d4\<lparr>nextchar := drop 2 (argv d4 ! optind d4)\<rparr>)
        else Short_Option (d4\<lparr>nextchar := drop 1 (argv d4 ! optind d4)\<rparr>))"

text \<open>One scan step: a new element of \<open>argv\<close>, or the next character of a cluster.\<close>

definition scan :: "string \<Rightarrow> long_option list \<Rightarrow> getopt_data \<Rightarrow> char option \<times> getopt_data" where
  "scan optstring longopts d =
     (if nextchar d = [] then
        (case advance d of
           Return r d2 \<Rightarrow> (r, d2)
         | Long_Option d2 \<Rightarrow> process_long_option optstring longopts d2
         | Short_Option d2 \<Rightarrow> short_option optstring d2)
      else short_option optstring d)"

text \<open>
  \<open>getopt_long\<close>: \<open>None\<close> stands for the return value -1. A call with \<open>optind\<close> beyond
  \<open>argc\<close>, or inside a cluster that no element holds, reads outside \<open>argv\<close>.
\<close>

definition getopt_long ::
    "bool \<Rightarrow> string \<Rightarrow> long_option list \<Rightarrow> getopt_data \<Rightarrow> stop + (char option \<times> getopt_data)" where
  "getopt_long posixly_correct optstring longopts d =
     (if argv d = [] then Inr (None, d)
      else if length (argv d) < optind d \<or> (nextchar d \<noteq> [] \<and> length (argv d) \<le> optind d)
      then Inl Undefined
      else
        let d0 = d\<lparr>optarg := None\<rparr>;
            (optstring', d1) =
               (if optind d0 = 0 \<or> \<not> initialized d0
                then getopt_initialize posixly_correct optstring d0
                else if take 1 optstring = ''-'' \<or> take 1 optstring = ''+''
                then (drop 1 optstring, d0)
                else (optstring, d0))
        in Inr (scan optstring' longopts d1))"

subsection \<open>Every call that returns an option makes progress\<close>

text \<open>
  The characters still to be scanned: the elements of \<open>argv\<close> from \<open>optind\<close> on (one
  more each, for the element itself), or the rest of the cluster being read and the
  elements after it. A call of \<open>getopt_long\<close> that returns an option leaves fewer, which
  is why the loops of \<open>parse_options\<close> end.
\<close>

definition rest_size :: "string list \<Rightarrow> nat \<Rightarrow> nat" where
  "rest_size args k = (\<Sum>a\<leftarrow>drop k args. length a + 1)"

definition remaining :: "getopt_data \<Rightarrow> nat" where
  "remaining d =
     (if nextchar d = [] then rest_size (argv d) (optind d)
      else rest_size (argv d) (Suc (optind d)) + length (nextchar d))"

text \<open>Before the first call the library has not looked at \<open>argv\<close> at all.\<close>

definition loop_measure :: "getopt_data \<Rightarrow> nat" where
  "loop_measure d = (if initialized d then remaining d else rest_size (argv d) 0 + 1)"

lemma rest_size_mono: "k \<le> k' \<Longrightarrow> rest_size args k' \<le> rest_size args k"
proof -
  assume "k \<le> k'"
  then have "drop k' args = drop (k' - k) (drop k args)" by simp
  moreover have "\<And>xs n. (\<Sum>a\<leftarrow>drop n xs. length a + 1) \<le> (\<Sum>a\<leftarrow>xs. length (a::string) + 1)"
  proof -
    fix xs :: "string list" and n
    have "(\<Sum>a\<leftarrow>xs. length a + 1) = (\<Sum>a\<leftarrow>take n xs. length a + 1) + (\<Sum>a\<leftarrow>drop n xs. length a + 1)"
      by (metis append_take_drop_id map_append sum_list.append)
    then show "(\<Sum>a\<leftarrow>drop n xs. length a + 1) \<le> (\<Sum>a\<leftarrow>xs. length (a::string) + 1)" by simp
  qed
  ultimately show ?thesis unfolding rest_size_def by metis
qed

lemma rest_size_step: "k < length args \<Longrightarrow> rest_size args k = length (args ! k) + 1 + rest_size args (Suc k)"
  by (simp add: rest_size_def Cons_nth_drop_Suc[symmetric])

lemma exchange_facts:
  assumes "optind d \<le> length (argv d)"
  shows "length (argv (exchange d)) = length (argv d)"
    and "optind (exchange d) = optind d"
    and "nextchar (exchange d) = nextchar d"
    and "ordering (exchange d) = ordering d"
    and "initialized (exchange d) = initialized d"
    and "drop (optind d) (argv (exchange d)) = drop (optind d) (argv d)"
  using assms by (auto simp: exchange_def Let_def min_def)

lemma clamp_facts:
  shows "argv (clamp_nonopts d) = argv d"
    and "optind (clamp_nonopts d) = optind d"
    and "nextchar (clamp_nonopts d) = nextchar d"
    and "ordering (clamp_nonopts d) = ordering d"
  by (auto simp: clamp_nonopts_def Let_def)

lemma drop_drop_eq:
  assumes "drop k xs = drop k ys" and "k \<le> k'"
  shows "drop k' xs = drop k' ys"
proof -
  have "drop k' xs = drop (k' - k) (drop k xs)" using assms(2) by simp
  also have "\<dots> = drop (k' - k) (drop k ys)" using assms(1) by simp
  also have "\<dots> = drop k' ys" using assms(2) by simp
  finally show ?thesis .
qed

lemma permute_skip_facts:
  assumes "optind d \<le> length (argv d)"
  shows "length (argv (permute_skip d)) = length (argv d)"
    and "optind d \<le> optind (permute_skip d)"
    and "optind (permute_skip d) \<le> length (argv d)"
    and "nextchar (permute_skip d) = nextchar d"
    and "drop (optind d) (argv (permute_skip d)) = drop (optind d) (argv d)"
proof -
  define e where "e = (if first_nonopt d \<noteq> last_nonopt d \<and> last_nonopt d \<noteq> optind d then exchange d
               else if last_nonopt d \<noteq> optind d then d\<lparr>first_nonopt := optind d\<rparr>
               else d)"
  have e: "length (argv e) = length (argv d)" "optind e = optind d" "nextchar e = nextchar d"
    "drop (optind d) (argv e) = drop (optind d) (argv d)"
    using exchange_facts[OF assms] by (auto simp: e_def)
  define k where "k = length (takeWhile nonoption (drop (optind e) (argv e)))"
  have p: "permute_skip d = e\<lparr>optind := optind e + k, last_nonopt := optind e + k\<rparr>"
    by (simp add: permute_skip_def e_def k_def Let_def)
  have "k \<le> length (drop (optind e) (argv e))"
    unfolding k_def by (rule length_takeWhile_le)
  then have k: "optind e + k \<le> length (argv e)" using assms e by simp
  show "length (argv (permute_skip d)) = length (argv d)" using p e by simp
  show "optind d \<le> optind (permute_skip d)" using p e by simp
  show "optind (permute_skip d) \<le> length (argv d)" using p e k by simp
  show "nextchar (permute_skip d) = nextchar d" using p e by simp
  show "drop (optind d) (argv (permute_skip d)) = drop (optind d) (argv d)" using p e by simp
qed

lemma end_of_options_facts:
  assumes "optind d \<le> length (argv d)"
  shows "length (argv (end_of_options d)) = length (argv d)"
    and "optind d \<le> optind (end_of_options d)"
    and "optind (end_of_options d) \<le> length (argv d)"
    and "nextchar (end_of_options d) = nextchar d"
    and "drop (optind (end_of_options d)) (argv (end_of_options d)) =
         drop (optind (end_of_options d)) (argv d)"
proof -
  show "length (argv (end_of_options d)) = length (argv d)"
    using assms by (auto simp: end_of_options_def Let_def exchange_facts)
  show "optind d \<le> optind (end_of_options d)"
    using assms by (auto simp: end_of_options_def Let_def)
  show "optind (end_of_options d) \<le> length (argv d)"
    using assms by (auto simp: end_of_options_def Let_def)
  show "nextchar (end_of_options d) = nextchar d"
    using assms by (auto simp: end_of_options_def Let_def exchange_facts)
  show "drop (optind (end_of_options d)) (argv (end_of_options d)) =
         drop (optind (end_of_options d)) (argv d)"
    using assms by (auto simp: end_of_options_def Let_def exchange_facts)
qed


lemma advance_stage:
  assumes le: "optind d \<le> length (argv d)"
  defines "d3 \<equiv> (if ordering (clamp_nonopts d) = PERMUTE then permute_skip (clamp_nonopts d)
                   else clamp_nonopts d)"
  defines "d4 \<equiv> end_of_options d3"
  shows "length (argv d4) = length (argv d)"
    and "optind d \<le> optind d4"
    and "optind d4 \<le> length (argv d)"
    and "nextchar d4 = nextchar d"
    and "rest_size (argv d4) (optind d4) \<le> rest_size (argv d) (optind d)"
    and "rest_size (argv d4) (Suc (optind d4)) = rest_size (argv d) (Suc (optind d4))"
proof -
  have c: "optind (clamp_nonopts d) \<le> length (argv (clamp_nonopts d))"
    using le by (simp add: clamp_facts)
  have d3: "length (argv d3) = length (argv d)" "optind d \<le> optind d3"
    "optind d3 \<le> length (argv d)" "nextchar d3 = nextchar d"
    "drop (optind d) (argv d3) = drop (optind d) (argv d)"
    using permute_skip_facts[OF c] by (auto simp: d3_def clamp_facts)
  then have le3: "optind d3 \<le> length (argv d3)" by simp
  note e = end_of_options_facts[OF le3, folded d4_def]
  show "length (argv d4) = length (argv d)" using e d3 by simp
  show o: "optind d \<le> optind d4" using e d3 by simp
  show "optind d4 \<le> length (argv d)" using e d3 by simp
  show "nextchar d4 = nextchar d" using e d3 by simp
  have "drop (optind d4) (argv d3) = drop (optind d4) (argv d)"
    using d3(5) o by (rule drop_drop_eq)
  with e(5) have eq: "drop (optind d4) (argv d4) = drop (optind d4) (argv d)" by simp
  then have "rest_size (argv d4) (optind d4) = rest_size (argv d) (optind d4)"
    by (simp add: rest_size_def)
  with rest_size_mono[OF o] show "rest_size (argv d4) (optind d4) \<le> rest_size (argv d) (optind d)"
    by simp
  have "drop (Suc (optind d4)) (argv d4) = drop (Suc (optind d4)) (argv d)"
    using eq by (rule drop_drop_eq) simp
  then show "rest_size (argv d4) (Suc (optind d4)) = rest_size (argv d) (Suc (optind d4))"
    by (simp add: rest_size_def)
qed

lemma short_option_decreases:
  assumes "nextchar d \<noteq> []" and "optind d < length (argv d)"
  shows "remaining (snd (short_option os d)) <
           rest_size (argv d) (Suc (optind d)) + length (nextchar d)"
proof -
  have m: "rest_size (argv d) (Suc (Suc (optind d))) \<le> rest_size (argv d) (Suc (optind d))"
    by (rule rest_size_mono) simp
  from assms(1) obtain c cs where n: "nextchar d = c # cs" by (cases "nextchar d") auto
  show ?thesis using m
    by (auto simp: short_option_def Let_def remaining_def print_error_def n)
qed

lemma process_long_option_decreases:
  assumes "optind d < length (argv d)"
  shows "remaining (snd (process_long_option os lo d)) < rest_size (argv d) (optind d)"
proof -
  have m: "rest_size (argv d) (Suc (Suc (optind d))) \<le> rest_size (argv d) (Suc (optind d))"
    by (rule rest_size_mono) simp
  have s: "rest_size (argv d) (Suc (optind d)) < rest_size (argv d) (optind d)"
    using rest_size_step[OF assms] by simp
  show ?thesis using m s
    by (auto simp: process_long_option_def Let_def remaining_def print_error_def split: list.splits)
qed


lemma advance_decreases:
  assumes le: "optind d \<le> length (argv d)" and nc: "nextchar d = []"
  shows "case advance d of
           Return r d2 \<Rightarrow> r \<noteq> None \<longrightarrow> remaining d2 < remaining d
         | Long_Option d2 \<Rightarrow>
             optind d2 < length (argv d2) \<and> rest_size (argv d2) (optind d2) \<le> remaining d
         | Short_Option d2 \<Rightarrow>
             nextchar d2 \<noteq> [] \<and> optind d2 < length (argv d2) \<and>
             rest_size (argv d2) (Suc (optind d2)) + length (nextchar d2) < remaining d"
proof -
  define d4 where "d4 = end_of_options (if ordering (clamp_nonopts d) = PERMUTE
                          then permute_skip (clamp_nonopts d) else clamp_nonopts d)"
  note st = advance_stage[OF le, folded d4_def]
  have r: "remaining d = rest_size (argv d) (optind d)" using nc by (simp add: remaining_def)
  have adv: "advance d =
     (if optind d4 = length (argv d) then
          Return None (if first_nonopt d4 \<noteq> last_nonopt d4
                       then d4\<lparr>optind := first_nonopt d4\<rparr> else d4)
        else if nonoption (argv d4 ! optind d4) then
          (if ordering d4 = REQUIRE_ORDER then Return None d4
           else Return (Some (CHR 0x01))
                  (d4\<lparr>optarg := Some (argv d4 ! optind d4), optind := optind d4 + 1\<rparr>))
        else if take 1 (drop 1 (argv d4 ! optind d4)) = ''-'' then
          Long_Option (d4\<lparr>nextchar := drop 2 (argv d4 ! optind d4)\<rparr>)
        else Short_Option (d4\<lparr>nextchar := drop 1 (argv d4 ! optind d4)\<rparr>))"
    by (simp add: advance_def d4_def Let_def)
  show ?thesis
  proof (cases "optind d4 = length (argv d)")
    case True
    then show ?thesis by (simp add: adv)
  next
    case False
    with st have lt: "optind d4 < length (argv d4)" by simp
    have step: "rest_size (argv d4) (optind d4) =
                  length (argv d4 ! optind d4) + 1 + rest_size (argv d4) (Suc (optind d4))"
      by (rule rest_size_step[OF lt])
    show ?thesis
    proof (cases "nonoption (argv d4 ! optind d4)")
      case True
      with False st step r nc show ?thesis
        by (auto simp: adv remaining_def)
    next
      case no: False
      then obtain cs where a: "argv d4 ! optind d4 = CHR ''-'' # cs" "cs \<noteq> []"
        by (auto simp: nonoption_def split: list.splits)
      with False no st step r lt show ?thesis
        by (auto simp: adv)
    qed
  qed
qed

lemma initialized_kept:
  "initialized (exchange d) = initialized d"
  "initialized (clamp_nonopts d) = initialized d"
  "initialized (permute_skip d) = initialized d"
  "initialized (end_of_options d) = initialized d"
  "initialized (snd (short_option os d)) = initialized d"
  "initialized (snd (process_long_option os lo d)) = initialized d"
  by (auto simp: exchange_def clamp_nonopts_def permute_skip_def end_of_options_def
        short_option_def process_long_option_def print_error_def Let_def split: list.splits)

lemma advance_initialized:
  "initialized (case advance d of Return r e \<Rightarrow> e | Long_Option e \<Rightarrow> e | Short_Option e \<Rightarrow> e)
     = initialized d"
  by (simp add: advance_def Let_def initialized_kept)

lemma scan_decreases:
  assumes le: "optind d \<le> length (argv d)"
      and inside: "nextchar d \<noteq> [] \<Longrightarrow> optind d < length (argv d)"
      and res: "scan os lo d = (Some c, d')"
  shows "remaining d' < remaining d \<and> initialized d' = initialized d"
proof (cases "nextchar d = []")
  case False
  with res have d': "d' = snd (short_option os d)" by (simp add: scan_def)
  from short_option_decreases[OF False inside[OF False], of os] False
  show ?thesis by (simp add: d' remaining_def initialized_kept)
next
  case True
  note dec = advance_decreases[OF le True]
  note ini = advance_initialized[of d]
  show ?thesis
  proof (cases "advance d")
    case (Return r e)
    with res True dec ini show ?thesis by (auto simp: scan_def)
  next
    case (Long_Option e)
    with res True have d': "d' = snd (process_long_option os lo e)" by (simp add: scan_def)
    from Long_Option dec have "optind e < length (argv e)"
      "rest_size (argv e) (optind e) \<le> remaining d" by simp_all
    with process_long_option_decreases[of e os lo] Long_Option ini
    show ?thesis by (simp add: d' initialized_kept)
  next
    case (Short_Option e)
    with res True have d': "d' = snd (short_option os e)" by (simp add: scan_def)
    from Short_Option dec have "nextchar e \<noteq> []" "optind e < length (argv e)"
      "rest_size (argv e) (Suc (optind e)) + length (nextchar e) < remaining d" by simp_all
    with short_option_decreases[of e os] Short_Option ini
    show ?thesis by (simp add: d' initialized_kept)
  qed
qed

lemma getopt_long_decreases:
  assumes g: "getopt_long pc os lo d = Inr (Some c, d')"
  shows "loop_measure d' < loop_measure d"
proof -
  from g have ne: "argv d \<noteq> []" and le: "optind d \<le> length (argv d)"
    and inside: "nextchar d \<noteq> [] \<Longrightarrow> optind d < length (argv d)"
    by (auto simp: getopt_long_def split: if_splits)
  show ?thesis
  proof (cases "optind d = 0 \<or> \<not> initialized d")
    case True
    define d1 where "d1 = snd (getopt_initialize pc os (d\<lparr>optarg := None\<rparr>))"
    define os' where "os' = fst (getopt_initialize pc os (d\<lparr>optarg := None\<rparr>))"
    have d1: "argv d1 = argv d" "nextchar d1 = []" "initialized d1"
      "optind d1 = (if optind d = 0 then 1 else optind d)"
      by (auto simp: d1_def getopt_initialize_def Let_def)
    from g True ne le inside have s: "scan os' lo d1 = (Some c, d')"
      by (auto simp: getopt_long_def d1_def os'_def Let_def split: if_splits prod.splits)
    have le1: "optind d1 \<le> length (argv d1)" using d1 le ne by (cases "argv d") auto
    from scan_decreases[OF le1 _ s] d1
    have dec: "remaining d' < rest_size (argv d) (optind d1)" and i: "initialized d'"
      by (auto simp: remaining_def)
    have a: "rest_size (argv d) (optind d1) \<le> rest_size (argv d) 0" by (rule rest_size_mono) simp
    show ?thesis
    proof (cases "initialized d")
      case False
      with dec a i show ?thesis by (simp add: loop_measure_def)
    next
      case init: True
      with True have z: "optind d = 0" by simp
      have "rest_size (argv d) (Suc 0) \<le> rest_size (argv d) 0" by (rule rest_size_mono) simp
      with dec i init z d1 show ?thesis by (auto simp: loop_measure_def remaining_def)
    qed
  next
    case False
    define d1 where "d1 = d\<lparr>optarg := None\<rparr>"
    obtain os' where s: "scan os' lo d1 = (Some c, d')"
      using g False ne le inside
      by (auto simp: getopt_long_def d1_def Let_def split: if_splits)
    have "optind d1 \<le> length (argv d1)" "nextchar d1 \<noteq> [] \<Longrightarrow> optind d1 < length (argv d1)"
      using le inside by (auto simp: d1_def)
    from scan_decreases[OF this s] False show ?thesis
      by (auto simp: loop_measure_def d1_def remaining_def)
  qed
qed

section \<open>options.c\<close>

text \<open>
  \<open>struct option_t\<close> (declared in options.h), with the fields in the order of the
  initialiser of the global \<open>option\<close> and under the names \<open>parse_options\<close> uses.
\<close>

datatype command_t = DISCOVER | SCPI

record option_t =
  command :: command_t
  timeout :: int
  ip :: string
  scpi_command :: string
  dump_hex :: bool
  dump_file :: bool
  filename :: string
  interactive :: bool
  run_script :: bool

text \<open>The initialiser of the global \<open>option\<close>, lines 42 to 53.\<close>

definition option_default :: option_t where
  "option_default =
     \<lparr>command = SCPI, timeout = 1, ip = [], scpi_command = ''*IDN?'', dump_hex = False,
      dump_file = False, filename = [], interactive = False, run_script = False\<rparr>"

text \<open>
  \<open>strncpy(dst, src, n)\<close>, read back as a string: the first \<open>n\<close> characters of the
  source (a source of \<open>n\<close> characters or more leaves the field without its NUL).
\<close>

definition strncpy :: "nat \<Rightarrow> string \<Rightarrow> string" where
  "strncpy n src = take n src"

definition discover_long_options :: "long_option list" where
  "discover_long_options = [\<lparr>name = ''timeout'', has_arg = required_argument, val = CHR ''t''\<rparr>]"

definition scpi_long_options :: "long_option list" where
  "scpi_long_options =
     [\<lparr>name = ''timeout'', has_arg = required_argument, val = CHR ''t''\<rparr>,
      \<lparr>name = ''ip'', has_arg = required_argument, val = CHR ''i''\<rparr>,
      \<lparr>name = ''dump-hex'', has_arg = no_argument, val = CHR ''x''\<rparr>,
      \<lparr>name = ''dump-file'', has_arg = required_argument, val = CHR ''f''\<rparr>,
      \<lparr>name = ''interactive'', has_arg = no_argument, val = CHR ''a''\<rparr>,
      \<lparr>name = ''run-script'', has_arg = required_argument, val = CHR ''r''\<rparr>]"

definition global_long_options :: "long_option list" where
  "global_long_options =
     [\<lparr>name = ''version'', has_arg = no_argument, val = CHR ''v''\<rparr>,
      \<lparr>name = ''help'', has_arg = no_argument, val = CHR ''h''\<rparr>]"

text \<open>
  The bodies of the three \<open>switch\<close> statements. \<open>optarg\<close> is never null for an option
  that requires an argument; \<open>atoi\<close> of a null pointer is undefined.
\<close>

definition set_timeout :: "getopt_data \<Rightarrow> option_t \<Rightarrow> stop + option_t" where
  "set_timeout d opt =
     (case optarg d of
        None \<Rightarrow> Inl Undefined
      | Some a \<Rightarrow> (case atoi a of Inl e \<Rightarrow> Inl e | Inr v \<Rightarrow> Inr (opt\<lparr>timeout := v\<rparr>)))"

definition discover_switch :: "char \<Rightarrow> getopt_data \<Rightarrow> option_t \<Rightarrow> stop + option_t" where
  "discover_switch c d opt =
     (if c = CHR ''t'' then set_timeout d opt
      else if c = CHR ''?'' then Inl (Exit EXIT_FAILURE (errs d))
      else Inr opt)"

definition scpi_switch :: "char \<Rightarrow> getopt_data \<Rightarrow> option_t \<Rightarrow> stop + option_t" where
  "scpi_switch c d opt =
     (if c = CHR ''t'' then set_timeout d opt
      else if c = CHR ''i'' then
        (case optarg d of
           None \<Rightarrow> Inl Undefined
         | Some a \<Rightarrow> Inr (opt\<lparr>ip := strncpy 500 a\<rparr>))
      else if c = CHR ''x'' then Inr (opt\<lparr>dump_hex := True\<rparr>)
      else if c = CHR ''f'' then
        Inr (opt\<lparr>dump_file := True, filename := (case optarg d of None \<Rightarrow> [] | Some a \<Rightarrow> a)\<rparr>)
      else if c = CHR ''a'' then Inr (opt\<lparr>interactive := True\<rparr>)
      else if c = CHR ''r'' then
        Inr (opt\<lparr>run_script := True, filename := (case optarg d of None \<Rightarrow> [] | Some a \<Rightarrow> a)\<rparr>)
      else if c = CHR ''?'' then Inl (Exit EXIT_FAILURE (errs d))
      else Inr opt)"

definition global_switch :: "char \<Rightarrow> getopt_data \<Rightarrow> option_t \<Rightarrow> stop + option_t" where
  "global_switch c d opt =
     (if c = CHR ''v'' then Inl (Exit EXIT_SUCCESS (errs d @ [Version_Line]))
      else if c = CHR ''h'' then Inl (Exit EXIT_SUCCESS (errs d @ [Usage]))
      else if c = CHR ''?'' then Inl (Exit EXIT_FAILURE (errs d))
      else Inr opt)"

text \<open>
  The \<open>while (c != -1)\<close> loops: the body of the switch on the option just returned, then
  the next call of \<open>getopt_long\<close>, with the option string and the table written at the
  end of that loop.
\<close>

function option_loop ::
    "bool \<Rightarrow> string \<Rightarrow> long_option list \<Rightarrow> (char \<Rightarrow> getopt_data \<Rightarrow> option_t \<Rightarrow> stop + option_t) \<Rightarrow>
     char option \<Rightarrow> getopt_data \<Rightarrow> option_t \<Rightarrow> stop + (option_t \<times> getopt_data)" where
  "option_loop pc optstring longopts body c d opt =
     (case c of
        None \<Rightarrow> Inr (opt, d)
      | Some ch \<Rightarrow>
          (case body ch d opt of
             Inl e \<Rightarrow> Inl e
           | Inr opt' \<Rightarrow>
               (case getopt_long pc optstring longopts d of
                  Inl e \<Rightarrow> Inl e
                | Inr (c', d') \<Rightarrow> option_loop pc optstring longopts body c' d' opt')))"
  by pat_completeness auto
termination
proof (relation "measure (\<lambda>(pc, optstring, longopts, body, c, d, opt).
                    case c of None \<Rightarrow> 0 | Some ch \<Rightarrow> Suc (loop_measure d))", goal_cases)
  case 1
  show ?case by simp
next
  case (2 pc optstring longopts body c d opt ch opt' r c' d')
  then have "getopt_long pc optstring longopts d = Inr (c', d')" by simp
  with getopt_long_decreases[of pc optstring longopts d _ d'] 2(1)
  show ?case by (cases c') auto
qed

text \<open>
  Lines 84 to 212: the first argument selects the option string and the table of the
  first call of \<open>getopt_long\<close>; the calls at the end of the loops have their own.
  \<open>parse_options\<close> runs once, on the initial value of \<open>option\<close> and the initial state of
  the library.
\<close>

definition parse_flags :: "bool \<Rightarrow> string list \<Rightarrow> stop + (option_t \<times> getopt_data)" where
  "parse_flags pc args =
     (if length args = 1 then Inl (Exit EXIT_SUCCESS [Usage])
      else if length args < 2 then Inl Undefined
      else
        let d = (getopt_start args)\<lparr>optind := 2\<rparr> in
        if args ! 1 = ''discover'' then
          (let opt = option_default\<lparr>command := DISCOVER\<rparr> in
           case getopt_long pc ''t:'' discover_long_options d of
             Inl e \<Rightarrow> Inl e
           | Inr (c, d') \<Rightarrow> option_loop pc ''t:'' discover_long_options discover_switch c d' opt)
        else if args ! 1 = ''scpi'' then
          (let opt = option_default\<lparr>command := SCPI\<rparr> in
           case getopt_long pc ''i:t:xf:ar:'' scpi_long_options d of
             Inl e \<Rightarrow> Inl e
           | Inr (c, d') \<Rightarrow> option_loop pc ''t:'' scpi_long_options scpi_switch c d' opt)
        else
          (let d = d\<lparr>optind := 1\<rparr> in
           case getopt_long pc ''vh'' global_long_options d of
             Inl e \<Rightarrow> Inl e
           | Inr (c, d') \<Rightarrow> option_loop pc ''vh'' global_long_options global_switch c d' option_default))"

text \<open>Lines 224 to 232: arguments left over are unknown.\<close>

definition unknown_arguments :: "option_t \<Rightarrow> getopt_data \<Rightarrow> stop + option_t" where
  "unknown_arguments opt d =
     (if optind d < length (argv d) then
        Inl (Exit EXIT_FAILURE (errs d @ [Unknown_Arguments (drop (optind d) (argv d))]))
      else Inr opt)"

text \<open>Lines 214 to 222: the SCPI command given on the line, which needs an IP address.\<close>

definition take_command :: "option_t \<Rightarrow> getopt_data \<Rightarrow> stop + option_t" where
  "take_command opt d =
     (if command opt = SCPI \<and> optind d \<noteq> length (argv d) then
        (if length (argv d) < optind d then Inl Undefined
         else
           let opt1 = opt\<lparr>scpi_command := strncpy 500 (argv d ! optind d)\<rparr>;
               d1 = d\<lparr>optind := optind d + 1\<rparr>
           in if length (ip opt1) = 0 then Inl (Exit EXIT_FAILURE (errs d @ [No_IP_Address]))
              else unknown_arguments opt1 d1)
      else unknown_arguments opt d)"

definition parse_options :: "bool \<Rightarrow> string list \<Rightarrow> stop + option_t" where
  "parse_options pc args =
     (case parse_flags pc args of
        Inl e \<Rightarrow> Inl e
      | Inr (opt, d) \<Rightarrow> take_command opt d)"

declare option_loop.simps [simp del]

section \<open>Properties of the screenshot decoder\<close>

lemmas c_lib = atoi_def cstring_def NUL_def isspace_def isdigit_def digit_value_def int_range_def

lemma strip_tmc_result:
  "strip_tmc after response len = Inr (b, p, l) \<Longrightarrow>
     \<exists>n. atoi (cstring (response ! 1 # after)) = Inr n \<and> p = n + 2 \<and> l = len - (n + 2) - 1 \<and>
         0 \<le> p \<and> 0 \<le> l + 1 \<and> l + 1 < int (length response) \<and> b = response[nat (l + 1) := NUL]"
  by (auto simp: strip_tmc_def Let_def algebra_simps split: if_splits sum.splits)

text \<open>
  What the decode step does on a well-framed block: \<open>#\<close>, the digit \<open>d\<close> that counts the
  length digits, the length digits, the payload, one terminator \<open>t\<close>, then the rest of the
  array. The length it returns is the payload's. The NUL meant for the terminator is
  written at index \<open>length\<close> of the array, counted from the start of the array and not
  from \<open>response_p\<close>, so it lands \<open>n + 1\<close> bytes before the end of the payload whenever the
  payload is longer than \<open>n\<close> bytes.
\<close>

lemma decode_tmc_block:
  assumes n: "atoi (cstring (d # after)) = Inr (int (length digits))"
      and len: "len = int (length digits + length payload + 3)" and range: "int_range len"
  shows "decode after (CHR ''#'' # d # digits @ payload @ t # pad) len =
           Inr (if length digits < length payload
                then payload[length payload - length digits - 1 := NUL] else payload,
                int (length payload))"
proof -
  define hdr where "hdr = CHR ''#'' # d # digits"
  define rest where "rest = payload @ t # pad"
  have r: "CHR ''#'' # d # digits @ payload @ t # pad = hdr @ rest"
    by (simp add: hdr_def rest_def)
  have lh: "length hdr = length digits + 2" by (simp add: hdr_def)
  have c: "(hdr @ payload @ t # pad) ! Suc 0 = d" by (simp add: hdr_def)
  have s: "strip_tmc after (hdr @ rest) len =
             Inr ((hdr @ rest)[Suc (length payload) := NUL], int (length digits) + 2, int (length payload))"
    using n range len
    by (simp add: strip_tmc_def c Let_def lh rest_def int_range_def nat_add_distrib)
  have "take (length payload) (drop (length digits + 2) ((hdr @ rest)[Suc (length payload) := NUL])) =
        (if length digits < length payload
                then payload[length payload - length digits - 1 := NUL] else payload)"
  proof (cases "length digits < length payload")
    case True
    then have k: "length payload - Suc (length digits) < length payload"
      and e: "Suc (length payload) - (length digits + 2) = length payload - Suc (length digits)"
      by arith+
    from True have "(hdr @ rest)[Suc (length payload) := NUL] =
                 hdr @ (payload[length payload - length digits - 1 := NUL] @ t # pad)"
      by (simp add: list_update_append lh rest_def k e)
    then show ?thesis using True by (simp add: lh)
  next
    case False
    then have "(hdr @ rest)[Suc (length payload) := NUL] = hdr[Suc (length payload) := NUL] @ rest"
      by (simp add: list_update_append lh)
    then show ?thesis using False by (simp add: lh rest_def)
  qed
  moreover have "nat (int (length digits) + 2) = length digits + 2" by simp
  ultimately have fd: "file_dump ((hdr @ rest)[Suc (length payload) := NUL])
                         (int (length digits) + 2) (int (length payload)) =
        Inr (if length digits < length payload
                then payload[length payload - length digits - 1 := NUL] else payload)"
    unfolding file_dump_def by (simp add: lh rest_def)
  show ?thesis
    unfolding r decode_def s by (simp add: fd)
qed

text \<open>
  C1. For a valid TMC buffer (\<open>#\<close>, the digit n, n length digits, the payload, one
  terminator) the decode step should return exactly the payload bytes and the length
  \<open>buffer length - (n + 2) - 1\<close>. On the block \<open>#212ABCDEFGHIJKL\<close> with a newline after
  it (n = 2, twelve payload bytes, 17 bytes in all, NUL after \<open>c\<close> in memory and any number
  of NUL bytes after the block in the array) the length returned is 12, as claimed, but the
  bytes are not the payload: its tenth byte \<open>J\<close> has been overwritten with NUL.
\<close>

theorem decode_two_digit_block_overwrites_payload:
  "decode [] (''#212ABCDEFGHIJKL'' @ [CHR 0x0A] @ replicate k NUL) 17 =
     Inr (''ABCDEFGHI'' @ [NUL] @ ''KL'', 12)"
  by (simp add: decode_def strip_tmc_def file_dump_def c_lib Let_def)

text \<open>
  C2. Decoding the 9-byte buffer \<open>#15HELLO\<close> plus newline should yield the payload
  \<open>HELLO\<close> with length 5. The code yields length 5 and the bytes \<open>HEL\<close>, NUL, \<open>O\<close>:
  \<open>length\<close> is 6 after the header is subtracted, and \<open>response[6]\<close> is the second \<open>L\<close>.
\<close>

theorem decode_hello_overwrites_payload:
  "decode [] (''#15HELLO'' @ [CHR 0x0A] @ replicate k NUL) 9 = Inr (''HEL'' @ [NUL] @ ''O'', 5)"
  by (simp add: decode_def strip_tmc_def file_dump_def c_lib)

text \<open>
  C3, as amended. The results that \<open>lxi_connect\<close>, \<open>lxi_send\<close> and \<open>lxi_receive\<close> report
  are not looked at: the outcome of a run does not depend on them, and every run that
  completes returns status 0 and prints the line that the screenshot was saved. No
  transport failure is reported.
\<close>

theorem transport_results_ignored:
  "screenshot_main m (tr\<lparr>connect_result := a, send_result := b, receive_result := c\<rparr>) args =
     screenshot_main m tr args \<and>
   (\<forall>r. screenshot_main m tr args = Inr r \<longrightarrow>
        status r = 0 \<and> printed r = [Saved_Screenshot (args ! 2)])"
  by (auto simp: screenshot_main_def capture_screenshot_def Let_def split: sum.splits)

text \<open>
  C3, as claimed, fails: connect, send and receive all report failure (-1) and nothing is
  received; \<open>length\<close> keeps the value it happened to hold (10 here), seven NUL bytes are
  written to the file, and the program exits with status 0 after printing that the
  screenshot was saved.
\<close>

theorem transport_failure_exits_with_success:
  "screenshot_main \<lparr>LXI_MESSAGE_LENGTH_MAX = 16, length_indeterminate = 10, after_c = []\<rparr>
     \<lparr>connect_result = - 1, send_result = - 1, receive_result = - 1, received = None\<rparr>
     [''rigol_1000z_screenshot'', ''192.0.2.5'', ''screen.bmp''] =
   Inr \<lparr>status = 0, file_name = ''screen.bmp'', file_bytes = replicate 7 NUL,
        printed = [Saved_Screenshot ''screen.bmp'']\<rparr>"
  by (simp add: screenshot_main_def capture_screenshot_def response_array_def decode_def
        strip_tmc_def file_dump_def c_lib Let_def eval_nat_numeral)

theorem transport_results_ignored_witness:
  "screenshot_main \<lparr>LXI_MESSAGE_LENGTH_MAX = 16, length_indeterminate = 10, after_c = []\<rparr>
     (\<lparr>connect_result = - 1, send_result = - 1, receive_result = - 1, received = None\<rparr>
        \<lparr>connect_result := 0, send_result := 0, receive_result := 0\<rparr>)
     [''rigol_1000z_screenshot'', ''192.0.2.5'', ''screen.bmp''] =
   screenshot_main \<lparr>LXI_MESSAGE_LENGTH_MAX = 16, length_indeterminate = 10, after_c = []\<rparr>
     \<lparr>connect_result = - 1, send_result = - 1, receive_result = - 1, received = None\<rparr>
     [''rigol_1000z_screenshot'', ''192.0.2.5'', ''screen.bmp''] \<and>
   screenshot_main \<lparr>LXI_MESSAGE_LENGTH_MAX = 16, length_indeterminate = 10, after_c = []\<rparr>
     \<lparr>connect_result = - 1, send_result = - 1, receive_result = - 1, received = None\<rparr>
     [''rigol_1000z_screenshot'', ''192.0.2.5'', ''screen.bmp''] =
   Inr \<lparr>status = 0, file_name = ''screen.bmp'', file_bytes = replicate 7 NUL,
        printed = [Saved_Screenshot ''screen.bmp'']\<rparr> \<and>
   status \<lparr>status = 0, file_name = ''screen.bmp'', file_bytes = replicate 7 NUL,
        printed = [Saved_Screenshot ''screen.bmp'']\<rparr> = 0"
proof -
  have run: "screenshot_main \<lparr>LXI_MESSAGE_LENGTH_MAX = 16, length_indeterminate = 10, after_c = []\<rparr>
     \<lparr>connect_result = - 1, send_result = - 1, receive_result = - 1, received = None\<rparr>
     [''rigol_1000z_screenshot'', ''192.0.2.5'', ''screen.bmp''] =
   Inr \<lparr>status = 0, file_name = ''screen.bmp'', file_bytes = replicate 7 NUL,
        printed = [Saved_Screenshot ''screen.bmp'']\<rparr>"
    by (simp add: screenshot_main_def capture_screenshot_def response_array_def decode_def
          strip_tmc_def file_dump_def c_lib Let_def eval_nat_numeral)
  from transport_results_ignored
         [where m = "\<lparr>LXI_MESSAGE_LENGTH_MAX = 16, length_indeterminate = 10, after_c = []\<rparr>"
            and tr = "\<lparr>connect_result = - 1, send_result = - 1, receive_result = - 1,
                       received = None\<rparr>"
            and a = 0 and b = 0 and c = 0
            and args = "[''rigol_1000z_screenshot'', ''192.0.2.5'', ''screen.bmp'']"]
       run
  show ?thesis by simp
qed

text \<open>
  C7, as amended. Decoding a buffer that is not TMC-framed is not rejected: the decode
  step checks nothing and has no outcome for a malformed response. When the byte at index
  1 is not a digit, a sign or white space, and the length is at least 3 and within the
  array, it returns the \<open>length - 3\<close> bytes from offset 2 on, after overwriting the byte
  at index \<open>length - 2\<close> with NUL.
\<close>

theorem decode_unframed_accepted:
  assumes "\<not> isdigit (response ! 1)" and "\<not> isspace (response ! 1)"
      and "response ! 1 \<noteq> CHR ''+''" and "response ! 1 \<noteq> CHR ''-''"
      and "3 \<le> len" and "len \<le> int (length response)" and "int_range len"
  shows "decode after response len =
           Inr (take (nat (len - 3)) (drop 2 (response[nat (len - 2) := NUL])), len - 3)"
  using assms
  by (auto simp: decode_def strip_tmc_def file_dump_def atoi_def cstring_def int_range_def Let_def)

text \<open>
  C7, as claimed, fails: the first decode of \<open>#15HELLO\<close> plus newline gives five bytes,
  and decoding these five bytes again is not rejected; it silently gives two bytes.
\<close>

theorem redecode_not_rejected:
  "decode [] (''#15HELLO'' @ [CHR 0x0A, NUL, NUL, NUL]) 9 = Inr (''HEL'' @ [NUL] @ ''O'', 5) \<and>
   decode [] ((''HEL'' @ [NUL] @ ''O'') @ [NUL, NUL, NUL]) 5 = Inr (''L'' @ [NUL], 2)"
  by (simp add: decode_def strip_tmc_def file_dump_def c_lib)

theorem decode_unframed_accepted_witness:
  "\<not> isdigit (''HELLO'' ! 1) \<and> \<not> isspace (''HELLO'' ! 1) \<and>
   ''HELLO'' ! 1 \<noteq> CHR ''+'' \<and> ''HELLO'' ! 1 \<noteq> CHR ''-'' \<and>
   (3::int) \<le> 5 \<and> 5 \<le> int (length ''HELLO'') \<and> int_range 5 \<and>
   decode [] ''HELLO'' 5 = Inr (''L'' @ [NUL], 2)"
proof -
  have h: "\<not> isdigit (''HELLO'' ! 1)" "\<not> isspace (''HELLO'' ! 1)"
    "''HELLO'' ! 1 \<noteq> CHR ''+''" "''HELLO'' ! 1 \<noteq> CHR ''-''"
    "(3::int) \<le> 5" "5 \<le> int (length ''HELLO'')" "int_range 5"
    by (simp_all add: c_lib)
  from decode_unframed_accepted[OF h, of "[]"] h show ?thesis by simp
qed

text \<open>
  C8. The decode step does not read the n length digits. Two response arrays of equal
  size that agree at every index outside 2 .. n + 1, where n is the number the code reads
  from the byte at index 1, decode alike for the same \<open>length\<close>: both runs are undefined,
  or both return the same payload offset and the same payload length, arrays that still
  agree outside those indices, and the same payload bytes.
\<close>

theorem decode_ignores_length_digits:
  assumes len: "length r1 = length r2"
      and n: "atoi (cstring (r1 ! 1 # after)) = Inr n"
      and agree: "\<forall>i < length r1. \<not> (2 \<le> int i \<and> int i \<le> n + 1) \<longrightarrow> r1 ! i = r2 ! i"
  shows "(\<exists>e. strip_tmc after r1 len = Inl e \<and> strip_tmc after r2 len = Inl e) \<or>
         (\<exists>b1 b2 p l. strip_tmc after r1 len = Inr (b1, p, l) \<and>
                       strip_tmc after r2 len = Inr (b2, p, l) \<and>
                       (\<forall>i < length b1. \<not> (2 \<le> int i \<and> int i \<le> n + 1) \<longrightarrow> b1 ! i = b2 ! i) \<and>
                       file_dump b1 p l = file_dump b2 p l)"
proof (cases "length r1 < 2")
  case True
  with len show ?thesis by (simp add: strip_tmc_def)
next
  case False
  with agree have c: "r1 ! 1 = r2 ! 1" by auto
  show ?thesis
  proof (cases "strip_tmc after r1 len")
    case (Inl e)
    with len c n False have "strip_tmc after r2 len = Inl e"
      by (auto simp: strip_tmc_def Let_def split: if_splits)
    with Inl show ?thesis by simp
  next
    case (Inr t)
    obtain b1 p l where t: "t = (b1, p, l)" by (cases t)
    from Inr t strip_tmc_result[of after r1 len b1 p l] n
    have p: "p = n + 2" and l: "l = len - (n + 2) - 1" and p0: "0 \<le> p"
      and b1: "b1 = r1[nat (l + 1) := NUL]" and l0: "0 \<le> l + 1" "l + 1 < int (length r1)"
      by auto
    define b2 where "b2 = r2[nat (l + 1) := NUL]"
    from Inr t len c n False p l have s2: "strip_tmc after r2 len = Inr (b2, p, l)"
      by (auto simp: strip_tmc_def Let_def b2_def algebra_simps split: if_splits)
    have ag: "\<forall>i < length b1. \<not> (2 \<le> int i \<and> int i \<le> n + 1) \<longrightarrow> b1 ! i = b2 ! i"
    proof (intro allI impI)
      fix i assume i: "i < length b1" and out: "\<not> (2 \<le> int i \<and> int i \<le> n + 1)"
      from i have "i < length r1" by (simp add: b1)
      with agree out have "r1 ! i = r2 ! i" by blast
      moreover from l0 len have "nat (l + 1) < length r1" "nat (l + 1) < length r2" by auto
      ultimately show "b1 ! i = b2 ! i"
        by (simp add: b1 b2_def nth_list_update)
    qed
    have "drop (nat p) b1 = drop (nat p) b2"
    proof (rule nth_equalityI)
      show "length (drop (nat p) b1) = length (drop (nat p) b2)"
        using len by (simp add: b1 b2_def)
    next
      fix i assume "i < length (drop (nat p) b1)"
      then have i: "nat p + i < length b1" by simp
      have "\<not> (2 \<le> int (nat p + i) \<and> int (nat p + i) \<le> n + 1)" using p p0 by simp
      with ag i have "b1 ! (nat p + i) = b2 ! (nat p + i)" by blast
      with i len show "drop (nat p) b1 ! i = drop (nat p) b2 ! i"
        by (simp add: b1 b2_def)
    qed
    then have "file_dump b1 p l = file_dump b2 p l"
      using len by (simp add: file_dump_def b1 b2_def)
    with Inr t s2 ag show ?thesis by simp
  qed
qed

theorem decode_ignores_length_digits_witness:
  "length (''#15HELLO'' @ [CHR 0x0A]) = length (''#19HELLO'' @ [CHR 0x0A]) \<and>
   atoi (cstring ((''#15HELLO'' @ [CHR 0x0A]) ! 1 # [])) = Inr 1 \<and>
   strip_tmc [] (''#15HELLO'' @ [CHR 0x0A]) 9 = Inr (''#15HEL'' @ [NUL] @ ''O'' @ [CHR 0x0A], 3, 5) \<and>
   strip_tmc [] (''#19HELLO'' @ [CHR 0x0A]) 9 = Inr (''#19HEL'' @ [NUL] @ ''O'' @ [CHR 0x0A], 3, 5) \<and>
   file_dump (''#15HEL'' @ [NUL] @ ''O'' @ [CHR 0x0A]) 3 5 =
     file_dump (''#19HEL'' @ [NUL] @ ''O'' @ [CHR 0x0A]) 3 5"
proof -
  have a: "length (''#15HELLO'' @ [CHR 0x0A]) = length (''#19HELLO'' @ [CHR 0x0A])" by simp
  have b: "atoi (cstring ((''#15HELLO'' @ [CHR 0x0A]) ! 1 # [])) = Inr 1" by (simp add: c_lib)
  have c: "\<forall>i < length (''#15HELLO'' @ [CHR 0x0A]). \<not> (2 \<le> int i \<and> int i \<le> 1 + 1) \<longrightarrow>
             (''#15HELLO'' @ [CHR 0x0A]) ! i = (''#19HELLO'' @ [CHR 0x0A]) ! i"
    by (simp add: All_less_Suc eval_nat_numeral)
  from decode_ignores_length_digits[OF a b c, of 9] a b show ?thesis
    by (simp add: strip_tmc_def Let_def c_lib)
qed

section \<open>Properties of the option parser\<close>

text \<open>No switch body touches the SCPI command, so the flag loops leave it as it was.\<close>

lemma switch_keeps_scpi_command:
  "discover_switch ch d opt = Inr opt' \<Longrightarrow> scpi_command opt' = scpi_command opt"
  "scpi_switch ch d opt = Inr opt' \<Longrightarrow> scpi_command opt' = scpi_command opt"
  "global_switch ch d opt = Inr opt' \<Longrightarrow> scpi_command opt' = scpi_command opt"
  by (auto simp: discover_switch_def scpi_switch_def global_switch_def set_timeout_def
        split: if_splits option.splits sum.splits)

lemma option_loop_keeps_scpi_command:
  assumes "\<And>ch d opt opt'. body ch d opt = Inr opt' \<Longrightarrow> scpi_command opt' = scpi_command opt"
      and "option_loop pc optstring longopts body c d opt = Inr (opt', d')"
  shows "scpi_command opt' = scpi_command opt"
  using assms
proof (induction pc optstring longopts body c d opt rule: option_loop.induct)
  case (1 pc optstring longopts body c d opt)
  show ?case
  proof (cases c)
    case None
    with "1.prems"(2) show ?thesis by (simp add: option_loop.simps)
  next
    case (Some ch)
    from "1.prems"(2) Some obtain opt1 c1 d1
      where b: "body ch d opt = Inr opt1"
        and g: "getopt_long pc optstring longopts d = Inr (c1, d1)"
        and l: "option_loop pc optstring longopts body c1 d1 opt1 = Inr (opt', d')"
      by (subst (asm) option_loop.simps) (auto split: sum.splits prod.splits)
    from "1.IH"[OF Some b g refl "1.prems"(1) l] "1.prems"(1)[OF b]
    show ?thesis by simp
  qed
qed

lemma parse_flags_keeps_default_command:
  assumes "parse_flags pc args = Inr (opt, d)"
  shows "scpi_command opt = ''*IDN?''"
proof -
  have d: "scpi_command option_default = ''*IDN?''" by (simp add: option_default_def)
  from assms show ?thesis
    by (auto simp: parse_flags_def Let_def d split: if_splits sum.splits prod.splits
          dest!: option_loop_keeps_scpi_command[rotated] switch_keeps_scpi_command)
qed

text \<open>
  When the flags are parsed, an argument is left and no address was given, the run ends
  with the diagnostic for the missing IP address.
\<close>

lemma missing_ip_diagnostic:
  assumes "parse_flags pc args = Inr (opt, d)"
      and "command opt = SCPI" and "optind d < length (argv d)" and "ip opt = []"
  shows "parse_options pc args = Inl (Exit EXIT_FAILURE (errs d @ [No_IP_Address]))"
  using assms by (simp add: parse_options_def take_command_def Let_def)

text \<open>
  C4. With \<open>scpi\<close> as first argument all six flags should be recognised in any order.
  The call of \<open>getopt_long\<close> at the end of the loop (line 178) passes the option string
  \<open>t:\<close> of the discover command, not \<open>i:t:xf:ar:\<close>: a short flag other than \<open>-t\<close> that
  follows another flag is an invalid option, and the run exits with failure.
\<close>

theorem scpi_short_flag_after_flag_rejected:
  "parse_options False [''lxi'', ''scpi'', ''-t'', ''2'', ''-i'', ''192.0.2.5'', ''*IDN?''] =
     Inl (Exit 1 [Invalid_Option CHR ''i'']) \<and>
   parse_options False [''lxi'', ''scpi'', ''-i'', ''192.0.2.5'', ''-x'', ''*IDN?''] =
     Inl (Exit 1 [Invalid_Option CHR ''x''])"
  by code_simp

text \<open>
  C5. A \<open>scpi\<close> invocation with a command on the line and no \<open>--ip\<close> should exit with the
  diagnostic for the missing IP address, whatever other flags are present. With the flags
  \<open>-t 2 -x\<close> the run exits with failure, but on the library's complaint about the
  invalid option \<open>x\<close> (line 178 again); the diagnostic for the missing address is not
  printed.
\<close>

theorem scpi_missing_ip_other_diagnostic:
  "parse_options False [''lxi'', ''scpi'', ''-t'', ''2'', ''-x'', ''*IDN?''] =
     Inl (Exit 1 [Invalid_Option CHR ''x''])"
  by code_simp

text \<open>
  C6. The arguments \<open>scpi -i 192.0.2.5 -t 2 *IDN?\<close> give the configuration with the
  command SCPI, the address 192.0.2.5, the timeout 2 and the SCPI command \<open>*IDN?\<close>, and
  the run does not exit; this holds whether or not \<open>POSIXLY_CORRECT\<close> is set.
\<close>

lemma parse_example_permute:
  "parse_options False [''lxi'', ''scpi'', ''-i'', ''192.0.2.5'', ''-t'', ''2'', ''*IDN?''] =
     Inr \<lparr>command = SCPI, timeout = 2, ip = ''192.0.2.5'', scpi_command = ''*IDN?'',
          dump_hex = False, dump_file = False, filename = [], interactive = False,
          run_script = False\<rparr>"
  by code_simp

lemma parse_example_posix:
  "parse_options True [''lxi'', ''scpi'', ''-i'', ''192.0.2.5'', ''-t'', ''2'', ''*IDN?''] =
     Inr \<lparr>command = SCPI, timeout = 2, ip = ''192.0.2.5'', scpi_command = ''*IDN?'',
          dump_hex = False, dump_file = False, filename = [], interactive = False,
          run_script = False\<rparr>"
  by code_simp

theorem parse_options_example:
  "parse_options pc [''lxi'', ''scpi'', ''-i'', ''192.0.2.5'', ''-t'', ''2'', ''*IDN?''] =
     Inr \<lparr>command = SCPI, timeout = 2, ip = ''192.0.2.5'', scpi_command = ''*IDN?'',
          dump_hex = False, dump_file = False, filename = [], interactive = False,
          run_script = False\<rparr>"
  by (cases pc) (simp_all only: parse_example_permute parse_example_posix)

text \<open>
  C9. With both the dump-file flag and the run-script flag, parsing should set both
  booleans and keep the path of the later flag. Given as \<open>-f out.txt -r script.txt\<close>, the
  second flag is an invalid option for the call at line 178 and the run exits with
  failure; given in the long form, the flags behave as claimed.
\<close>

theorem scpi_dump_file_then_run_script_rejected:
  "parse_options False [''lxi'', ''scpi'', ''-f'', ''out.txt'', ''-r'', ''script.txt''] =
     Inl (Exit 1 [Invalid_Option CHR ''r''])"
  by code_simp

lemma scpi_long_flags_share_filename:
  "parse_options False
     [''lxi'', ''scpi'', ''--dump-file'', ''out.txt'', ''--run-script'', ''script.txt''] =
     Inr \<lparr>command = SCPI, timeout = 1, ip = [], scpi_command = ''*IDN?'', dump_hex = False,
          dump_file = True, filename = ''script.txt'', interactive = False, run_script = True\<rparr>"
  "parse_options False
     [''lxi'', ''scpi'', ''--run-script'', ''script.txt'', ''--dump-file'', ''out.txt''] =
     Inr \<lparr>command = SCPI, timeout = 1, ip = [], scpi_command = ''*IDN?'', dump_hex = False,
          dump_file = True, filename = ''out.txt'', interactive = False, run_script = True\<rparr>"
  by code_simp+

text \<open>
  C10, as amended. When the flags are parsed and no argument is left (\<open>optind\<close> has
  reached \<open>argc\<close>: no SCPI command on the line), the run returns the configuration, and
  its SCPI command is the default \<open>*IDN?\<close> of the initialiser, not the empty string.
\<close>

theorem no_inline_command_keeps_default:
  assumes "parse_flags pc args = Inr (opt, d)" and "optind d = length (argv d)"
  shows "parse_options pc args = Inr opt \<and> scpi_command opt = ''*IDN?''"
  using assms parse_flags_keeps_default_command[OF assms(1)]
  by (simp add: parse_options_def take_command_def unknown_arguments_def)

text \<open>
  C10, as claimed, fails: \<open>scpi --interactive\<close> has no SCPI command on the line, and the
  resolved SCPI command is \<open>*IDN?\<close>.
\<close>

theorem interactive_scpi_command_not_empty:
  "parse_options False [''lxi'', ''scpi'', ''--interactive''] =
     Inr \<lparr>command = SCPI, timeout = 1, ip = [], scpi_command = ''*IDN?'', dump_hex = False,
          dump_file = False, filename = [], interactive = True, run_script = False\<rparr>"
  by code_simp

theorem no_inline_command_keeps_default_witness:
  "parse_flags False [''lxi'', ''scpi'', ''--interactive''] =
     Inr (\<lparr>command = SCPI, timeout = 1, ip = [], scpi_command = ''*IDN?'', dump_hex = False,
           dump_file = False, filename = [], interactive = True, run_script = False\<rparr>,
          \<lparr>argv = [''lxi'', ''scpi'', ''--interactive''], optind = 3, optarg = None,
           nextchar = [], first_nonopt = 3, last_nonopt = 3, ordering = PERMUTE,
           initialized = True, errs = []\<rparr>) \<and>
   parse_options False [''lxi'', ''scpi'', ''--interactive''] =
     Inr \<lparr>command = SCPI, timeout = 1, ip = [], scpi_command = ''*IDN?'', dump_hex = False,
          dump_file = False, filename = [], interactive = True, run_script = False\<rparr>"
proof -
  have f: "parse_flags False [''lxi'', ''scpi'', ''--interactive''] =
     Inr (\<lparr>command = SCPI, timeout = 1, ip = [], scpi_command = ''*IDN?'', dump_hex = False,
           dump_file = False, filename = [], interactive = True, run_script = False\<rparr>,
          \<lparr>argv = [''lxi'', ''scpi'', ''--interactive''], optind = 3, optarg = None,
           nextchar = [], first_nonopt = 3, last_nonopt = 3, ordering = PERMUTE,
           initialized = True, errs = []\<rparr>)"
    by code_simp
  from no_inline_command_keeps_default[OF f] f show ?thesis by simp
qed

end
